theory Spec2Isabelle
  imports Complex_Main "HOL-Library.Word" "HOL-Library.Char_ord" "HOL-Library.List_Lexorder"
begin

unbundle bit_operations_syntax

section \<open>Daily Boggle: puzzle generation, solver and scoring (src/app/play/page.tsx)\<close>

text \<open>
  Conventions of the embedding.
  \<^item> A JavaScript string is a \<^typ>\<open>string\<close>: the list of its code units. The model covers
    code units below 256, which includes every puzzle identifier (\<open>YYYY-MM-DD-v1\<close>) and
    every tile; \<open>charCodeAt\<close> is \<^const>\<open>of_char\<close>.
  \<^item> The 32-bit integers of \<open>Math.imul\<close>, \<open>^\<close>, \<open>|\<close>, \<open>&\<close>, \<open><<\<close> and \<open>>>>\<close> are
    \<^typ>\<open>32 word\<close>; \<open>>>> 0\<close> reads the word as unsigned (\<^const>\<open>unat\<close>).
  \<^item> A number is the \<^typ>\<open>real\<close> it denotes; the numbers of the program are binary64
    numbers. The one operation of the program that can round, the product in
    \<open>generateGrid\<close>, is the multiplication of the host and a parameter \<open>fmul\<close> of the model.
    For the generator of this program nothing rounds: a draw is \<open>n / 2^32\<close> with
    \<open>n < 2^32\<close>, and both it and 43 times it are binary64 numbers.
  \<^item> \<open>localeCompare\<close>, the collation of the host's default locale, is a parameter of the
    model as well.
  \<^item> \<open>undefined\<close>, the value of an array read out of range, is \<^const>\<open>None\<close>.
  \<^item> A closure with a captured variable is a state and a step function on it.
\<close>

type_synonym u32 = "32 word"

subsection \<open>hashStringToSeed\<close>

definition imul :: "u32 \<Rightarrow> u32 \<Rightarrow> u32" where
  "imul a b = a * b"

text \<open>The body of the \<open>for\<close> loop over the code units of the string.\<close>

fun hash_loop :: "string \<Rightarrow> u32 \<Rightarrow> u32" where
  "hash_loop [] h = h"
| "hash_loop (c # cs) h =
     (let h1 = imul (h XOR of_char c) 3432918353;
          h2 = push_bit 13 h1 OR drop_bit 19 h1
      in hash_loop cs h2)"

definition hashStringToSeed :: "string \<Rightarrow> u32" where
  "hashStringToSeed str =
     (let h0 = 1779033703 XOR word_of_nat (length str);
          h1 = hash_loop str h0;
          h2 = imul (h1 XOR drop_bit 16 h1) 2246822507;
          h3 = imul (h2 XOR drop_bit 13 h2) 3266489909
      in h3 XOR drop_bit 16 h3)"

subsection \<open>mulberry32\<close>

text \<open>
  \<open>mulberry32(seed)\<close> returns a closure over \<open>t = seed || 1\<close>: \<^term>\<open>mulberry32 seed\<close> is the
  initial value of \<open>t\<close>, and \<open>mulberry32_next\<close> is one call of the closure, giving the
  number returned and the new \<open>t\<close>.
\<close>

definition mulberry32 :: "u32 \<Rightarrow> u32" where
  "mulberry32 seed = (if seed = 0 then 1 else seed)"

definition mulberry32_next :: "u32 \<Rightarrow> real \<times> u32" where
  "mulberry32_next t =
     (let t1 = t + 0x6d2b79f5;
          r1 = imul (t1 XOR drop_bit 15 t1) (1 OR t1);
          r2 = (r1 + imul (r1 XOR drop_bit 7 r1) (61 OR r1)) XOR r1
      in (real (unat (r2 XOR drop_bit 14 r2)) / 4294967296, t1))"

text \<open>
  The state of a random source \<open>rng\<close> (a step function giving the number drawn and the
  next state) after \<open>n\<close> calls, and the number that call \<open>n\<close> of the generator returns,
  counting from 0.
\<close>

fun state_after :: "('s \<Rightarrow> real \<times> 's) \<Rightarrow> nat \<Rightarrow> 's \<Rightarrow> 's" where
  "state_after rng 0 s = s"
| "state_after rng (Suc n) s = state_after rng n (snd (rng s))"

definition nth_draw :: "u32 \<Rightarrow> nat \<Rightarrow> real" where
  "nth_draw seed n = fst (mulberry32_next (state_after mulberry32_next n (mulberry32 seed)))"

subsection \<open>generateGrid\<close>

type_synonym Tile = "string option"
type_synonym Grid = "Tile list"

definition LETTER_BAG :: "string list" where
  "LETTER_BAG =
     [''e'', ''e'', ''e'', ''e'', ''e'', ''e'', ''a'', ''a'', ''a'', ''a'',
      ''i'', ''i'', ''i'', ''o'', ''o'', ''o'', ''n'', ''n'', ''r'', ''r'', ''r'',
      ''t'', ''t'', ''t'', ''l'', ''l'', ''s'', ''s'', ''d'', ''d'', ''g'', ''b'',
      ''c'', ''m'', ''p'', ''f'', ''h'', ''v'', ''w'', ''y'', ''k'', ''x'', ''z'']"

text \<open>\<open>LETTER_BAG[idx]\<close>: \<open>undefined\<close> outside the table.\<close>

definition bagAt :: "int \<Rightarrow> Tile" where
  "bagAt idx =
     (if 0 \<le> idx \<and> idx < int (length LETTER_BAG) then Some (LETTER_BAG ! nat idx) else None)"

text \<open>
  The finite binary64 numbers: a significand below \<open>2^53\<close> scaled by a power of two
  between \<open>2^-1074\<close> and \<open>2^971\<close>. A result of the host's arithmetic is correctly rounded
  (IEEE 754) when it is a binary64 number and no binary64 number is nearer to the exact
  result.
\<close>

definition binary64 :: "real \<Rightarrow> bool" where
  "binary64 x \<longleftrightarrow>
     (\<exists>m e :: nat. m < 2 ^ 53 \<and>
        ((e \<le> 971 \<and> \<bar>x\<bar> = real m * 2 ^ e) \<or> (e \<le> 1074 \<and> \<bar>x\<bar> = real m / 2 ^ e)))"

definition correctlyRounded :: "real \<Rightarrow> real \<Rightarrow> bool" where
  "correctlyRounded f x \<longleftrightarrow> binary64 f \<and> (\<forall>r. binary64 r \<longrightarrow> \<bar>f - x\<bar> \<le> \<bar>r - x\<bar>)"

text \<open>The literal \<open>0.08\<close> denotes the binary64 number nearest to it.\<close>

definition quChance :: real where
  "quChance = 5764607523034235 / 72057594037927936"

text \<open>
  The body of the loop of \<open>generateGrid\<close>: the tile pushed at one position and the
  state of the random source afterwards. \<open>rng\<close> is the random source as a step function
  on its state \<open>s\<close>, and \<open>fmul\<close> the binary64 multiplication of the host.
\<close>

definition generateGrid_body ::
  "(real \<Rightarrow> real \<Rightarrow> real) \<Rightarrow> ('s \<Rightarrow> real \<times> 's) \<Rightarrow> 's \<Rightarrow> Tile \<times> 's" where
  "generateGrid_body fmul rng s =
     (case rng s of (x, s1) \<Rightarrow>
        if x < quChance then (Some ''qu'', s1)
        else (case rng s1 of (y, s2) \<Rightarrow>
                let idx = \<lfloor>fmul y (real (length LETTER_BAG))\<rfloor>
                in (bagAt idx, s2)))"

text \<open>The loop from position \<open>i\<close> on; \<open>grid\<close> holds the tiles pushed so far.\<close>

function generateGrid_loop ::
  "(real \<Rightarrow> real \<Rightarrow> real) \<Rightarrow> ('s \<Rightarrow> real \<times> 's) \<Rightarrow> nat \<Rightarrow> 's \<Rightarrow> Grid \<Rightarrow> Grid" where
  "generateGrid_loop fmul rng i s grid =
     (if i < 16 then
        (case generateGrid_body fmul rng s of (tile, s') \<Rightarrow>
           generateGrid_loop fmul rng (i + 1) s' (grid @ [tile]))
      else grid)"
  by pat_completeness auto
termination
  by (relation "measure (\<lambda>(fmul, rng, i, s, grid). 16 - i)") auto

definition generateGrid :: "(real \<Rightarrow> real \<Rightarrow> real) \<Rightarrow> ('s \<Rightarrow> real \<times> 's) \<Rightarrow> 's \<Rightarrow> Grid" where
  "generateGrid fmul rng s = generateGrid_loop fmul rng 0 s []"

text \<open>The state of the random source when the loop reaches position \<open>k\<close>.\<close>

fun tileState :: "(real \<Rightarrow> real \<Rightarrow> real) \<Rightarrow> ('s \<Rightarrow> real \<times> 's) \<Rightarrow> 's \<Rightarrow> nat \<Rightarrow> 's" where
  "tileState fmul rng s 0 = s"
| "tileState fmul rng s (Suc k) = tileState fmul rng (snd (generateGrid_body fmul rng s)) k"

text \<open>
  The grid of a puzzle identifier, as \<open>PlayPage\<close> computes it:
  \<open>generateGrid(mulberry32(hashStringToSeed(puzzleId)))\<close>. The draws of \<open>mulberry32\<close> are
  \<open>n / 2^32\<close> with \<open>n < 2^32\<close>, whose product with 43 is a binary64 number, so the
  multiplication of the host is the exact one here.
\<close>

definition puzzleGrid :: "string \<Rightarrow> Grid" where
  "puzzleGrid puzzleId =
     generateGrid (*) mulberry32_next (mulberry32 (hashStringToSeed puzzleId))"

text \<open>
  The same loop on the generator of the program in 32-bit and integer arithmetic:
  \<open>drawWord t\<close> is the 32-bit number that a call in state \<open>t\<close> divides by \<open>2^32\<close>.
\<close>

definition drawWord :: "u32 \<Rightarrow> u32" where
  "drawWord t =
     (let t1 = t + 0x6d2b79f5;
          r1 = imul (t1 XOR drop_bit 15 t1) (1 OR t1);
          r2 = (r1 + imul (r1 XOR drop_bit 7 r1) (61 OR r1)) XOR r1
      in r2 XOR drop_bit 14 r2)"

definition tileOfWords :: "u32 \<Rightarrow> Tile \<times> u32" where
  "tileOfWords t =
     (if uint (drawWord t) < 343597384 then (Some ''qu'', t + 0x6d2b79f5)
      else (bagAt (uint (drawWord (t + 0x6d2b79f5)) * 43 div 4294967296),
            t + 0x6d2b79f5 + 0x6d2b79f5))"

fun tilesOfWords :: "nat \<Rightarrow> u32 \<Rightarrow> Grid" where
  "tilesOfWords 0 t = []"
| "tilesOfWords (Suc n) t = (case tileOfWords t of (tile, t') \<Rightarrow> tile # tilesOfWords n t')"

subsection \<open>normalizeWord and buildDictionary\<close>

text \<open>
  \<open>toLowerCase\<close> on code units below 256: the letters A to Z and the upper-case letters
  of Latin-1 (192 to 222 except the multiplication sign 215) move up by 32.
\<close>

definition lowerChar :: "char \<Rightarrow> char" where
  "lowerChar c =
     (let n = (of_char c :: nat)
      in if (65 \<le> n \<and> n \<le> 90) \<or> (192 \<le> n \<and> n \<le> 222 \<and> n \<noteq> 215)
         then char_of (n + 32) else c)"

definition toLowerCase :: "string \<Rightarrow> string" where
  "toLowerCase str = map lowerChar str"

text \<open>The character class \<open>[a-z]\<close>.\<close>

definition isLowerAZ :: "char \<Rightarrow> bool" where
  "isLowerAZ c = (97 \<le> (of_char c :: nat) \<and> (of_char c :: nat) \<le> 122)"

definition normalizeWord :: "string \<Rightarrow> string" where
  "normalizeWord raw = (let onlyLetters = filter isLowerAZ (toLowerCase raw) in onlyLetters)"

text \<open>
  \<open>trim\<close> removes white space and line terminators at both ends; below 256 these are
  tab, line feed, vertical tab, form feed, carriage return, space and no-break space.
\<close>

definition isWhiteSpace :: "char \<Rightarrow> bool" where
  "isWhiteSpace c = ((of_char c :: nat) \<in> {9, 10, 11, 12, 13, 32, 160})"

definition trim :: "string \<Rightarrow> string" where
  "trim str = rev (dropWhile isWhiteSpace (rev (dropWhile isWhiteSpace str)))"

text \<open>
  \<open>rawText.split(/\r?\n/)\<close>: a line feed, together with a carriage return right before
  it, ends a line; the text after the last separator is the last line.
\<close>

fun consFirst :: "char \<Rightarrow> string list \<Rightarrow> string list" where
  "consFirst c [] = [[c]]"
| "consFirst c (l # ls) = (c # l) # ls"

fun splitLines :: "string \<Rightarrow> string list" where
  "splitLines [] = [[]]"
| "splitLines [c] = (if c = CHR 0x0A then [[], []] else [[c]])"
| "splitLines (c # d # cs) =
     (if c = CHR 0x0A then [] # splitLines (d # cs)
      else if c = CHR 0x0D \<and> d = CHR 0x0A then [] # splitLines cs
      else consFirst c (splitLines (d # cs)))"

record DictionaryIndex =
  words :: "string set"
  prefixes :: "string set"

text \<open>The body of the loop over the lines, on the two sets built so far.\<close>

definition buildDictionary_line :: "string \<Rightarrow> DictionaryIndex \<Rightarrow> DictionaryIndex" where
  "buildDictionary_line line d =
     (let w = normalizeWord (trim line)
      in if w = [] \<or> length w < 3 then d
         else if \<not> (w \<noteq> [] \<and> list_all isLowerAZ w) then d
         else \<lparr>words = insert w (words d),
               prefixes = fold (\<lambda>i ps. insert (take i w) ps) [1..<length w + 1] (prefixes d)\<rparr>)"

definition buildDictionary :: "string \<Rightarrow> DictionaryIndex" where
  "buildDictionary rawText =
     fold buildDictionary_line (splitLines rawText) \<lparr>words = {}, prefixes = {}\<rparr>"

text \<open>The invariant of the loop of \<open>buildDictionary\<close>.\<close>

definition indexInv :: "DictionaryIndex \<Rightarrow> bool" where
  "indexInv d \<longleftrightarrow>
     (\<forall>w\<in>words d. 3 \<le> length w \<and> list_all isLowerAZ w \<and>
        (\<forall>i. 1 \<le> i \<and> i \<le> length w \<longrightarrow> take i w \<in> prefixes d))"

subsection \<open>isAdjacent\<close>

text \<open>A position is an index of the grid array, a natural number.\<close>

record Coord =
  row :: int
  col :: int

definition indexToCoord :: "nat \<Rightarrow> Coord" where
  "indexToCoord index = \<lparr>row = int (index div 4), col = int (index mod 4)\<rparr>"

definition isAdjacent :: "nat \<Rightarrow> nat \<Rightarrow> bool" where
  "isAdjacent a b =
     (let ac = indexToCoord a;
          bc = indexToCoord b;
          dr = \<bar>row ac - row bc\<bar>;
          dc = \<bar>col ac - col bc\<bar>
      in if dr = 0 \<and> dc = 0 then False else max dr dc = 1)"

subsection \<open>solveGrid\<close>

text \<open>\<open>grid[index]\<close>, and the string that \<open>+\<close> appends for it.\<close>

definition gridAt :: "Grid \<Rightarrow> nat \<Rightarrow> Tile" where
  "gridAt g index = (if index < length g then g ! index else None)"

definition strOf :: "Tile \<Rightarrow> string" where
  "strOf t = (case t of Some str \<Rightarrow> str | None \<Rightarrow> ''undefined'')"

text \<open>The set \<open>results\<close> is the list of its elements in insertion order.\<close>

definition setAdd :: "string \<Rightarrow> string list \<Rightarrow> string list" where
  "setAdd w results = (if w \<in> set results then results else results @ [w])"

text \<open>\<open>1 << n\<close>: the shift count is taken modulo 32.\<close>

definition shl1 :: "nat \<Rightarrow> u32" where
  "shl1 n = push_bit (n mod 32) 1"

text \<open>The number of positions below 32 that a mask has not visited.\<close>

definition unvisited :: "u32 \<Rightarrow> nat" where
  "unvisited m = card {k. k < 32 \<and> \<not> bit m k}"

lemma shl1_eq_exp: "shl1 n = 2 ^ (n mod 32)"
  by (simp add: shl1_def)

lemma bit_shl1: "bit (shl1 n) k \<longleftrightarrow> k = n mod 32"
  unfolding shl1_eq_exp by (simp add: bit_exp_iff possible_bit_word) auto

lemma and_shl1_eq_0: "m AND shl1 n = 0 \<longleftrightarrow> \<not> bit m (n mod 32)"
  unfolding shl1_eq_exp by (rule and_exp_eq_0_iff_not_bit)

lemma bit_or_shl1: "bit (m OR shl1 n) k \<longleftrightarrow> bit m k \<or> k = n mod 32"
  by (simp add: bit_or_iff bit_shl1)

lemma unvisited_or_shl1:
  assumes "\<not> bit m (n mod 32)"
  shows "unvisited (m OR shl1 n) < unvisited m"
proof -
  have "n mod 32 < 32" by simp
  have e: "{k. k < 32 \<and> \<not> bit (m OR shl1 n) k} = {k. k < 32 \<and> \<not> bit m k} - {n mod 32}"
    unfolding bit_or_shl1 by blast
  have f: "finite {k. k < 32 \<and> \<not> bit m k}" by simp
  have i: "n mod 32 \<in> {k. k < 32 \<and> \<not> bit m k}" using assms by simp
  show ?thesis
    unfolding unvisited_def e using f i by (rule card_Diff1_less)
qed

lemma or_shl1_visited: "bit m (n mod 32) \<Longrightarrow> m OR shl1 n = m"
  by (rule bit_word_eqI) (auto simp only: bit_or_shl1)

text \<open>
  The inner function \<open>dfs\<close>, with the variables it closes over (\<open>grid\<close>, \<open>dict\<close>,
  \<open>prefixes\<close>) as parameters and the set \<open>results\<close> it adds to passed in and returned.
\<close>

function dfs ::
  "Grid \<Rightarrow> string set \<Rightarrow> string set \<Rightarrow> nat \<Rightarrow> u32 \<Rightarrow> string \<Rightarrow> string list \<Rightarrow> string list" where
  "dfs g dict pre index visitedMask current results =
     (let letter = gridAt g index;
          nextWord = current @ strOf letter
      in if nextWord \<notin> pre then results
         else
           let bit = shl1 index;
               nextMask = visitedMask OR bit;
               results1 = (if length nextWord \<ge> 3 \<and> nextWord \<in> dict
                           then setAdd nextWord results else results)
           in fold (\<lambda>n res.
                      if nextMask AND shl1 n \<noteq> 0 then res
                      else if \<not> isAdjacent index n then res
                      else dfs g dict pre n nextMask nextWord res)
                [0..<16] results1)"
  by pat_completeness auto
termination
proof (relation "measure (\<lambda>(g, dict, pre, index, visitedMask, current, results).
          2 * unvisited visitedMask + (if bit visitedMask (index mod 32) then 1 else 0))",
       goal_cases)
  case 1
  show ?case by simp
next
  case (2 g dict pre index visitedMask current results letter nextWord bit' nextMask results1 n res)
  from 2 have n: "\<not> bit nextMask (n mod 32)"
    by (simp add: and_shl1_eq_0)
  show ?case
  proof (cases "bit visitedMask (index mod 32)")
    case True
    then have "nextMask = visitedMask"
      using 2 by (simp add: or_shl1_visited)
    with n True show ?thesis by simp
  next
    case False
    then have "unvisited nextMask < unvisited visitedMask"
      using 2 by (simp add: unvisited_or_shl1)
    with n False show ?thesis by simp
  qed
qed

record SolverData =
  allWords :: "string list"

text \<open>
  The comparison function given to \<open>sort\<close>. \<open>a.localeCompare(b)\<close> is the collation of the
  host's default locale, not code of this program: it is the parameter \<open>localeCompare\<close>.
\<close>

definition compareWords :: "(string \<Rightarrow> string \<Rightarrow> int) \<Rightarrow> string \<Rightarrow> string \<Rightarrow> int" where
  "compareWords localeCompare a b =
     (if length b \<noteq> length a then int (length b) - int (length a)
      else localeCompare a b)"

text \<open>
  \<open>Array.prototype.sort\<close> with a comparison function: the stable sort, here by insertion.
\<close>

fun insertBy :: "('a \<Rightarrow> 'a \<Rightarrow> int) \<Rightarrow> 'a \<Rightarrow> 'a list \<Rightarrow> 'a list" where
  "insertBy cmp x [] = [x]"
| "insertBy cmp x (y # ys) = (if cmp x y \<le> 0 then x # y # ys else y # insertBy cmp x ys)"

definition sortBy :: "('a \<Rightarrow> 'a \<Rightarrow> int) \<Rightarrow> 'a list \<Rightarrow> 'a list" where
  "sortBy cmp xs = foldr (insertBy cmp) xs []"

definition solveGrid ::
  "(string \<Rightarrow> string \<Rightarrow> int) \<Rightarrow> Grid \<Rightarrow> string set \<Rightarrow> string set \<Rightarrow> SolverData" where
  "solveGrid localeCompare g dict pre =
     (let results = fold (\<lambda>i res. dfs g dict pre i 0 [] res) [0..<16] [];
          sorted = sortBy (compareWords localeCompare) results
      in \<lparr>allWords = sorted\<rparr>)"

text \<open>
  Two collations. \<open>lexCompare\<close> compares code unit by code unit; the default collation of
  an English locale agrees with it on words of the letters a to z, the only ones
  \<open>buildDictionary\<close> admits. \<open>czechCompare\<close> is the collation of a Czech locale on such
  words: the digraph \<open>ch\<close> is one letter, which sorts after \<open>h\<close>.
\<close>

definition lexCompare :: "string \<Rightarrow> string \<Rightarrow> int" where
  "lexCompare a b = (if a < b then - 1 else if a = b then 0 else 1)"

fun czechKeys :: "string \<Rightarrow> nat list" where
  "czechKeys [] = []"
| "czechKeys [c] = [2 * of_char c]"
| "czechKeys (c # d # cs) =
     (if c = CHR ''c'' \<and> d = CHR ''h'' then (2 * of_char (CHR ''h'') + 1) # czechKeys cs
      else 2 * of_char c # czechKeys (d # cs))"

definition czechCompare :: "string \<Rightarrow> string \<Rightarrow> int" where
  "czechCompare a b =
     (if czechKeys a < czechKeys b then - 1 else if czechKeys a = czechKeys b then 0 else 1)"


subsection \<open>Paths on the grid\<close>

text \<open>
  A witness path is a list of distinct grid positions (indices below 16) in which each
  position is adjacent to the next; it spells the concatenation of the strings of its
  tiles, the tile \<open>"qu"\<close> giving both letters.
\<close>

fun adjacentChain :: "nat list \<Rightarrow> bool" where
  "adjacentChain [] = True"
| "adjacentChain [a] = True"
| "adjacentChain (a # b # p) = (isAdjacent a b \<and> adjacentChain (b # p))"

definition isPath :: "nat list \<Rightarrow> bool" where
  "isPath p = (distinct p \<and> list_all (\<lambda>i. i < 16) p \<and> adjacentChain p)"

definition spell :: "Grid \<Rightarrow> nat list \<Rightarrow> string" where
  "spell g p = concat (map (\<lambda>i. strOf (gridAt g i)) p)"

subsection \<open>A small dictionary and grid\<close>

definition demoText :: string where
  "demoText = ''Cat\<newline>cats \<newline>B-A-T\<newline>it\<newline>''"

definition demoGrid :: Grid where
  "demoGrid = map Some
     [''c'', ''a'', ''t'', ''s'',
      ''b'', ''x'', ''x'', ''x'',
      ''x'', ''x'', ''x'', ''x'',
      ''x'', ''x'', ''x'', ''x'']"



subsection \<open>PlayPage: the puzzle of the day and the state of a game\<close>

text \<open>
  The three values of the \<open>useMemo\<close> in \<open>PlayPage\<close> (\<open>grid\<close>, \<open>solver\<close>, \<open>validWordSet\<close>),
  \<^const>\<open>None\<close> for \<open>null\<close>. A \<open>Set\<close> object is always truthy; a string is falsy when it is
  \<open>null\<close> or empty. The product in \<open>generateGrid\<close> is exact for the draws of
  \<open>mulberry32\<close>, as in \<^const>\<open>puzzleGrid\<close>.
\<close>

record Puzzle =
  memoGrid :: "Grid option"
  memoSolver :: "SolverData option"
  memoValidWordSet :: "string set option"

definition usePuzzle ::
  "(string \<Rightarrow> string \<Rightarrow> int) \<Rightarrow> string option \<Rightarrow> string set option \<Rightarrow> string set option
     \<Rightarrow> Puzzle" where
  "usePuzzle localeCompare puzzleId dict pre =
     (case (puzzleId, dict, pre) of
        (Some pid, Some d, Some p) \<Rightarrow>
          if pid = [] then \<lparr>memoGrid = None, memoSolver = None, memoValidWordSet = None\<rparr>
          else
            let seed = hashStringToSeed pid;
                rng = mulberry32 seed;
                g = generateGrid (*) mulberry32_next rng;
                s = solveGrid localeCompare g d p;
                validSet = set (allWords s)
            in \<lparr>memoGrid = Some g, memoSolver = Some s, memoValidWordSet = Some validSet\<rparr>
      | _ \<Rightarrow> \<lparr>memoGrid = None, memoSolver = None, memoValidWordSet = None\<rparr>)"

datatype Status = New | Duplicate | Invalid

record Submission =
  subWord :: string
  subDelta :: int
  subStatus :: Status

text \<open>
  The state variables of \<open>PlayPage\<close> that the handlers of a game read and write;
  \<open>restoredResult\<close> records whether the variable of that name is non-null. Sounds,
  confetti and feedback messages are presentation and are left out.
\<close>

record GameState =
  selected :: "nat list"
  score :: int
  foundWords :: "string set"
  submissions :: "Submission list"
  timeLeft :: int
  running :: bool
  finished :: bool
  dictLoaded :: bool
  gameReady :: bool
  restoredResult :: bool

definition GAME_SECONDS :: int where
  "GAME_SECONDS = 60"

text \<open>\<open>join("")\<close> renders an \<open>undefined\<close> element as the empty string.\<close>

definition joinStr :: "Tile \<Rightarrow> string" where
  "joinStr t = (case t of Some str \<Rightarrow> str | None \<Rightarrow> [])"

definition currentWord :: "Puzzle \<Rightarrow> GameState \<Rightarrow> string" where
  "currentWord pz st =
     (case memoGrid pz of
        None \<Rightarrow> []
      | Some g \<Rightarrow>
          if length (selected st) = 0 then []
          else concat (map (\<lambda>i. joinStr (gridAt g i)) (selected st)))"

text \<open>\<open>selected.indexOf(index)\<close>, with \<^const>\<open>None\<close> for \<open>-1\<close>.\<close>

fun indexOf :: "nat list \<Rightarrow> nat \<Rightarrow> nat option" where
  "indexOf [] x = None"
| "indexOf (y # ys) x = (if y = x then Some 0 else map_option Suc (indexOf ys x))"

definition handleTileClick :: "Puzzle \<Rightarrow> GameState \<Rightarrow> nat \<Rightarrow> GameState" where
  "handleTileClick pz st index =
     (if \<not> running st \<or> finished st then st
      else if memoGrid pz = None then st
      else
        (case indexOf (selected st) index of
           Some existingIndex \<Rightarrow>
             if existingIndex = length (selected st) - 1
             then st\<lparr>selected := butlast (selected st)\<rparr>
             else st\<lparr>selected := take (existingIndex + 1) (selected st)\<rparr>
         | None \<Rightarrow>
             if length (selected st) = 0 then st\<lparr>selected := [index]\<rparr>
             else if \<not> isAdjacent (last (selected st)) index then st
             else st\<lparr>selected := selected st @ [index]\<rparr>))"

definition handleClear :: "GameState \<Rightarrow> GameState" where
  "handleClear st = st\<lparr>selected := []\<rparr>"

definition handleSubmit :: "Puzzle \<Rightarrow> GameState \<Rightarrow> GameState" where
  "handleSubmit pz st =
     (if \<not> running st \<or> finished st then st
      else
        (case (memoSolver pz, memoValidWordSet pz) of
           (Some solver, Some validWordSet) \<Rightarrow>
             let word = normalizeWord (currentWord pz st)
             in if length word < 3 then
                  st\<lparr>submissions :=
                       \<lparr>subWord = (if currentWord pz st = [] then ''(too short)''
                                   else currentWord pz st),
                        subDelta = - 1, subStatus = Invalid\<rparr> # submissions st,
                     score := max 0 (score st - 1),
                     selected := []\<rparr>
                else
                  let (delta, status) =
                        (if word \<in> foundWords st then (- 1, Duplicate)
                         else if word \<in> validWordSet then (int (length word) - 2, New)
                         else (- 1, Invalid))
                  in st\<lparr>score := max 0 (score st + delta),
                        submissions :=
                          \<lparr>subWord = word, subDelta = delta, subStatus = status\<rparr> # submissions st,
                        foundWords :=
                          (if status = New then insert word (foundWords st) else foundWords st),
                        selected := []\<rparr>
         | _ \<Rightarrow> st))"

definition handleStart :: "Puzzle \<Rightarrow> GameState \<Rightarrow> GameState" where
  "handleStart pz st =
     (if memoGrid pz = None \<or> \<not> dictLoaded st \<or> \<not> gameReady st then st
      else if restoredResult st then st
      else if running st \<or> finished st then st
      else st\<lparr>timeLeft := GAME_SECONDS, score := 0, foundWords := {}, submissions := [],
              selected := [], finished := False, running := True\<rparr>)"

text \<open>One tick of the timer, which runs only while the game is running.\<close>

definition timerTick :: "GameState \<Rightarrow> GameState" where
  "timerTick st =
     (if \<not> running st \<or> finished st then st
      else if timeLeft st \<le> 1 then st\<lparr>running := False, finished := True, timeLeft := 0\<rparr>
      else st\<lparr>timeLeft := timeLeft st - 1\<rparr>)"

text \<open>The events of a game, and the state after a list of them.\<close>

datatype Event = TileClick nat | Clear | Submit | Start | Tick

fun step :: "Puzzle \<Rightarrow> GameState \<Rightarrow> Event \<Rightarrow> GameState" where
  "step pz st (TileClick index) = handleTileClick pz st index"
| "step pz st Clear = handleClear st"
| "step pz st Submit = handleSubmit pz st"
| "step pz st Start = handleStart pz st"
| "step pz st Tick = timerTick st"

definition run :: "Puzzle \<Rightarrow> GameState \<Rightarrow> Event list \<Rightarrow> GameState" where
  "run pz st evs = foldl (step pz) st evs"

text \<open>The state of \<open>PlayPage\<close> when it is mounted, and the puzzle of the small grid.\<close>

definition initialState :: GameState where
  "initialState =
     \<lparr>selected = [], score = 0, foundWords = {}, submissions = [], timeLeft = GAME_SECONDS,
      running = False, finished = False, dictLoaded = False, gameReady = False,
      restoredResult = False\<rparr>"

definition demoPuzzle :: Puzzle where
  "demoPuzzle =
     (let s = solveGrid lexCompare demoGrid (words (buildDictionary demoText))
                (prefixes (buildDictionary demoText))
      in \<lparr>memoGrid = Some demoGrid, memoSolver = Some s,
          memoValidWordSet = Some (set (allWords s))\<rparr>)"

text \<open>
  The state once the dictionary is loaded and no saved result was found, and a
  dictionary for the grid of \<open>2024-01-15-v1\<close>.
\<close>

definition readyState :: GameState where
  "readyState = initialState\<lparr>dictLoaded := True, gameReady := True\<rparr>"

definition dayText :: string where
  "dayText = ''bed\<newline>red\<newline>dear\<newline>''"

definition demoState :: GameState where
  "demoState =
     initialState\<lparr>dictLoaded := True, gameReady := True, running := True,
                  selected := [0, 1, 2]\<rparr>"

section \<open>The generator\<close>

lemma u32_fraction_range:
  fixes w :: u32
  shows "0 \<le> real (unat w) / 4294967296 \<and> real (unat w) / 4294967296 < 1"
proof -
  have "unat w < 4294967296"
    using unsigned_less [of w, where ?'a = nat] by simp
  then have "real (unat w) < 4294967296"
    by (metis of_nat_less_iff of_nat_numeral)
  then show ?thesis
    by (simp del: of_nat_unat)
qed

lemma mulberry32_next_range:
  "0 \<le> fst (mulberry32_next t) \<and> fst (mulberry32_next t) < 1"
  by (simp only: mulberry32_next_def Let_def fst_conv u32_fraction_range)

text \<open>
  C9. For every 32-bit seed, every value produced by successive calls of the function
  returned by \<open>mulberry32(seed)\<close> lies in the half-open interval from 0 to 1: the draw
  number \<open>n\<close> (counting from 0) is at least 0 and less than 1.
\<close>

theorem mulberry32_draws_in_unit_interval:
  "0 \<le> nth_draw seed n \<and> nth_draw seed n < 1"
  unfolding nth_draw_def by (rule mulberry32_next_range)

section \<open>Grid generation\<close>

lemma length_LETTER_BAG: "length LETTER_BAG = 43"
  by (simp add: LETTER_BAG_def)

lemma binary64_scaled:
  assumes "binary64 x" and "0 \<le> x"
  shows "(\<exists>N::nat. x * 2 ^ E = real N) \<or> x < 2 ^ 53 / 2 ^ Suc E"
proof -
  from assms obtain m e :: nat where m: "m < 2 ^ 53"
    and c: "(e \<le> 971 \<and> x = real m * 2 ^ e) \<or> (e \<le> 1074 \<and> x = real m / 2 ^ e)"
    unfolding binary64_def by auto
  from c show ?thesis
  proof
    assume "e \<le> 971 \<and> x = real m * 2 ^ e"
    then have "x * 2 ^ E = real (m * 2 ^ e * 2 ^ E)" by simp
    then show ?thesis by blast
  next
    assume d: "e \<le> 1074 \<and> x = real m / 2 ^ e"
    show ?thesis
    proof (cases "e \<le> E")
      case True
      then have "(2::real) ^ E = 2 ^ e * 2 ^ (E - e)"
        by (simp add: power_add [symmetric])
      with d have "x * 2 ^ E = real (m * 2 ^ (E - e))" by simp
      then show ?thesis by blast
    next
      case False
      then have "Suc E \<le> e" by simp
      then have p: "(2::real) ^ Suc E \<le> 2 ^ e"
        by (rule power_increasing) simp
      from m have "real m < 2 ^ 53"
        by (metis of_nat_less_iff of_nat_numeral of_nat_power)
      then have "real m / 2 ^ e < 2 ^ 53 / 2 ^ e"
        by (simp add: divide_strict_right_mono)
      also have "\<dots> \<le> 2 ^ 53 / 2 ^ Suc E"
        using p by (intro divide_left_mono) simp_all
      finally show ?thesis using d by simp
    qed
  qed
qed

lemma binary64_below_1:
  assumes "binary64 y" and "0 \<le> y" and "y < 1"
  shows "y \<le> 1 - 1 / 2 ^ 53"
  using binary64_scaled [OF assms(1,2), of 53]
proof
  assume "\<exists>N::nat. y * 2 ^ 53 = real N"
  then obtain N :: nat where N: "y * 2 ^ 53 = real N" ..
  with assms(3) have "real N < 9007199254740992" by simp
  then have "N < 9007199254740992" by linarith
  then have "N \<le> 9007199254740991" by simp
  then have "real N \<le> 9007199254740991" by linarith
  with N show ?thesis by simp
next
  assume "y < 2 ^ 53 / 2 ^ Suc 53"
  then show ?thesis by simp
qed

lemma binary64_quChance:
  assumes "binary64 x" and "0 \<le> x"
  shows "x < quChance \<longleftrightarrow> x < 8 / 100"
proof
  assume "x < 8 / 100"
  then show "x < quChance" by (simp add: quChance_def)
next
  assume q: "x < quChance"
  show "x < 8 / 100"
  proof (rule ccontr)
    assume "\<not> x < 8 / 100"
    then have l: "8 / 100 \<le> x" by simp
    from binary64_scaled [OF assms, of 56] show False
    proof
      assume "\<exists>N::nat. x * 2 ^ 56 = real N"
      then obtain N :: nat where N: "x * 2 ^ 56 = real N" ..
      from q N have "real N < 5764607523034235" by (simp add: quChance_def)
      then have u: "N < 5764607523034235" by linarith
      from l N have "5764607523034234 < real N" by simp
      then have "5764607523034234 < N" by linarith
      with u show False by simp
    next
      assume "x < 2 ^ 53 / 2 ^ Suc 56"
      with l show False by simp
    qed
  qed
qed

lemma binary64_0: "binary64 0"
  unfolding binary64_def by (intro exI [of _ 0]) simp

lemma binary64_of_nat_div:
  assumes "m < 2 ^ 53" and "e \<le> 1074"
  shows "binary64 (real m / 2 ^ e)"
  unfolding binary64_def using assms by (intro exI [of _ m] exI [of _ e]) simp

lemma binary64_below_43: "binary64 (43 - 1 / 2 ^ 47)"
proof -
  have "(43 - 1 / 2 ^ 47 :: real) = real 6051711999279103 / 2 ^ 47" by simp
  also have "binary64 \<dots>" by (rule binary64_of_nat_div) simp_all
  finally show ?thesis .
qed

lemma correctlyRounded_scaled_draw:
  assumes y: "binary64 y" "0 \<le> y" "y < 1"
    and f: "correctlyRounded f (y * real (length LETTER_BAG))"
  shows "0 \<le> \<lfloor>f\<rfloor> \<and> \<lfloor>f\<rfloor> < 43"
proof -
  let ?x = "y * 43"
  from f have near: "\<bar>f - ?x\<bar> \<le> \<bar>r - ?x\<bar>" if "binary64 r" for r
    using that by (simp add: correctlyRounded_def length_LETTER_BAG)
  from binary64_below_1 [OF y] have "?x \<le> 43 - 43 / 2 ^ 53" by simp
  moreover from y(2) have "0 \<le> ?x" by simp
  moreover note near [OF binary64_0] near [OF binary64_below_43]
  ultimately have "0 \<le> f \<and> f < 43" by (simp add: abs_if split: if_splits)
  then show ?thesis by (simp add: floor_less_iff)
qed

lemma mulberry32_next_drawWord:
  "mulberry32_next t = (real (unat (drawWord t)) / 4294967296, t + 0x6d2b79f5)"
  by (simp only: mulberry32_next_def drawWord_def Let_def)

lemma unat_u32_less: "unat (w :: u32) < 4294967296"
  using unsigned_less [of w, where ?'a = nat] by simp

lemma mulberry32_next_binary64: "binary64 (fst (mulberry32_next t))"
proof -
  have "binary64 (real (unat (drawWord t)) / 2 ^ 32)"
    using unat_u32_less [of "drawWord t"] by (intro binary64_of_nat_div) simp_all
  then show ?thesis by (simp only: mulberry32_next_drawWord fst_conv power_numeral) simp
qed

lemma mulberry32_product_exact:
  "correctlyRounded (fst (mulberry32_next t) * real (length LETTER_BAG))
     (fst (mulberry32_next t) * real (length LETTER_BAG))"
proof -
  have "binary64 (real (unat (drawWord t) * 43) / 2 ^ 32)"
    using unat_u32_less [of "drawWord t"] by (intro binary64_of_nat_div) simp_all
  then have "binary64 (fst (mulberry32_next t) * real (length LETTER_BAG))"
    by (simp add: mulberry32_next_drawWord length_LETTER_BAG del: of_nat_unat)
  then show ?thesis by (simp add: correctlyRounded_def)
qed

lemma generateGrid_loop_eq:
  "i \<le> 16 \<Longrightarrow> generateGrid_loop fmul rng i s grid =
     grid @ map (\<lambda>k. fst (generateGrid_body fmul rng (tileState fmul rng s k))) [0..<16 - i]"
proof (induction fmul rng i s grid rule: generateGrid_loop.induct)
  case (1 fmul rng i s grid)
  show ?case
  proof (cases "i < 16")
    case True
    obtain tile s' where b: "generateGrid_body fmul rng s = (tile, s')"
      by (cases "generateGrid_body fmul rng s")
    have u: "[0..<16 - i] = 0 # map Suc [0..<16 - (i + 1)]"
    proof -
      have e: "16 - i = Suc (16 - (i + 1))" using True by simp
      show ?thesis unfolding e
        by (simp only: map_Suc_upt upt_conv_Cons [OF zero_less_Suc])
    qed
    have "generateGrid_loop fmul rng i s grid = generateGrid_loop fmul rng (i + 1) s' (grid @ [tile])"
      using True b by simp
    also have "\<dots> = (grid @ [tile]) @
        map (\<lambda>k. fst (generateGrid_body fmul rng (tileState fmul rng s' k))) [0..<16 - (i + 1)]"
      using "1.IH" [OF True b [symmetric]] True by simp
    also have "\<dots> = grid @ map (\<lambda>k. fst (generateGrid_body fmul rng (tileState fmul rng s k))) [0..<16 - i]"
      unfolding u using b by (simp add: comp_def)
    finally show ?thesis .
  next
    case False
    with "1.prems" have "i = 16" by simp
    then show ?thesis by simp
  qed
qed

lemma generateGrid_eq:
  "generateGrid fmul rng s =
     map (\<lambda>k. fst (generateGrid_body fmul rng (tileState fmul rng s k))) [0..<16]"
  by (simp add: generateGrid_def generateGrid_loop_eq del: generateGrid_loop.simps)

lemma state_after_add:
  "state_after rng (m + n) s = state_after rng n (state_after rng m s)"
  by (induction m arbitrary: s) simp_all

lemma state_after_Suc_right:
  "state_after rng (Suc n) s = snd (rng (state_after rng n s))"
  using state_after_add [of rng n 1 s] by simp

lemma generateGrid_body_state:
  "\<exists>m. snd (generateGrid_body fmul rng s) = state_after rng m s"
proof -
  obtain x s1 where 1: "rng s = (x, s1)" by (cases "rng s")
  obtain y s2 where 2: "rng s1 = (y, s2)" by (cases "rng s1")
  have a: "state_after rng 1 s = s1" using 1 by simp
  have b: "state_after rng 2 s = s2" using 1 2 by (simp add: numeral_2_eq_2)
  show ?thesis
  proof (cases "x < quChance")
    case True
    with 1 a have "snd (generateGrid_body fmul rng s) = state_after rng 1 s"
      by (simp add: generateGrid_body_def)
    then show ?thesis ..
  next
    case False
    with 1 2 b have "snd (generateGrid_body fmul rng s) = state_after rng 2 s"
      by (simp add: generateGrid_body_def Let_def)
    then show ?thesis ..
  qed
qed

lemma tileState_reached: "\<exists>n. tileState fmul rng s k = state_after rng n s"
proof (induction k arbitrary: s)
  case 0
  have "tileState fmul rng s 0 = state_after rng 0 s" by simp
  then show ?case ..
next
  case (Suc k)
  obtain m where m: "snd (generateGrid_body fmul rng s) = state_after rng m s"
    using generateGrid_body_state [of fmul rng s] ..
  from Suc [of "snd (generateGrid_body fmul rng s)"] obtain n
    where "tileState fmul rng (snd (generateGrid_body fmul rng s)) k =
             state_after rng n (snd (generateGrid_body fmul rng s))" ..
  then have "tileState fmul rng s (Suc k) = state_after rng (m + n) s"
    by (simp add: m state_after_add)
  then show ?case ..
qed

text \<open>
  C8. Grid generation cannot fail: for every random source whose every draw is a (binary64)
  number in the interval from 0 (included) to 1 (excluded), with the product of a draw
  and the length of the letter bag correctly rounded as IEEE 754 has it, \<open>generateGrid\<close>
  returns exactly 16 tiles and none of them is \<open>undefined\<close>. The tile at position \<open>k\<close> is
  \<open>"qu"\<close> when the first draw at that position is below 0.08, and otherwise the entry of
  the letter bag at the index \<open>floor(second draw * 43)\<close>, the product being the host's,
  which is at least 0 and below 43.
\<close>

theorem generateGrid_cannot_fail:
  assumes draws: "\<And>n. binary64 (fst (rng (state_after rng n s))) \<and>
        0 \<le> fst (rng (state_after rng n s)) \<and> fst (rng (state_after rng n s)) < 1"
    and mult: "\<And>n. correctlyRounded
        (fmul (fst (rng (state_after rng n s))) (real (length LETTER_BAG)))
        (fst (rng (state_after rng n s)) * real (length LETTER_BAG))"
  shows "length (generateGrid fmul rng s) = 16 \<and> None \<notin> set (generateGrid fmul rng s) \<and>
    (\<forall>k<16. \<exists>x s1 y s2 idx.
        rng (tileState fmul rng s k) = (x, s1) \<and> rng s1 = (y, s2) \<and>
        idx = \<lfloor>fmul y (real (length LETTER_BAG))\<rfloor> \<and> 0 \<le> idx \<and> idx < 43 \<and>
        generateGrid fmul rng s ! k =
          (if x < 8 / 100 then Some ''qu'' else Some (LETTER_BAG ! nat idx)))"
proof -
  have body: "\<exists>x s1 y s2 idx.
        rng (tileState fmul rng s k) = (x, s1) \<and> rng s1 = (y, s2) \<and>
        idx = \<lfloor>fmul y (real (length LETTER_BAG))\<rfloor> \<and> 0 \<le> idx \<and> idx < 43 \<and>
        fst (generateGrid_body fmul rng (tileState fmul rng s k)) =
          (if x < 8 / 100 then Some ''qu'' else Some (LETTER_BAG ! nat idx))" for k
  proof -
    let ?s0 = "tileState fmul rng s k"
    obtain n where n: "?s0 = state_after rng n s"
      using tileState_reached [of fmul rng s k] ..
    obtain x s1 where 1: "rng ?s0 = (x, s1)" by (cases "rng ?s0")
    obtain y s2 where 2: "rng s1 = (y, s2)" by (cases "rng s1")
    from draws [of n] 1 n have x: "binary64 x" "0 \<le> x" by simp_all
    have s1: "s1 = state_after rng (Suc n) s"
      using 1 n by (simp add: state_after_Suc_right del: state_after.simps)
    with draws [of "Suc n"] 2 have y: "binary64 y" "0 \<le> y" "y < 1" by simp_all
    from mult [of "Suc n"] s1 2
    have "correctlyRounded (fmul y (real (length LETTER_BAG))) (y * real (length LETTER_BAG))"
      by simp
    with y have 3: "0 \<le> \<lfloor>fmul y (real (length LETTER_BAG))\<rfloor> \<and>
        \<lfloor>fmul y (real (length LETTER_BAG))\<rfloor> < 43"
      by (rule correctlyRounded_scaled_draw)
    then have "fst (generateGrid_body fmul rng ?s0) =
          (if x < 8 / 100 then Some ''qu''
           else Some (LETTER_BAG ! nat \<lfloor>fmul y (real (length LETTER_BAG))\<rfloor>))"
      using 1 2 binary64_quChance [OF x]
      by (simp add: generateGrid_body_def bagAt_def length_LETTER_BAG)
    with 1 2 3 show ?thesis by blast
  qed
  have len: "length (generateGrid fmul rng s) = 16"
    by (simp add: generateGrid_eq)
  have nth: "generateGrid fmul rng s ! k =
      fst (generateGrid_body fmul rng (tileState fmul rng s k))" if "k < 16" for k
    using that by (simp add: generateGrid_eq del: upt_Suc)
  have "None \<notin> set (generateGrid fmul rng s)"
  proof
    assume "None \<in> set (generateGrid fmul rng s)"
    then obtain k where "k < 16" "generateGrid fmul rng s ! k = None"
      using len by (metis in_set_conv_nth)
    with nth [of k] body [of k] show False
      by (auto split: if_splits)
  qed
  with len nth body show ?thesis by simp
qed

theorem generateGrid_cannot_fail_witness:
  "length (generateGrid (*) mulberry32_next (mulberry32 7)) = 16 \<and>
   None \<notin> set (generateGrid (*) mulberry32_next (mulberry32 7)) \<and>
   (\<exists>x s1 y s2 idx.
        mulberry32_next (tileState (*) mulberry32_next (mulberry32 7) 3) = (x, s1) \<and>
        mulberry32_next s1 = (y, s2) \<and>
        idx = \<lfloor>y * real (length LETTER_BAG)\<rfloor> \<and> 0 \<le> idx \<and> idx < 43 \<and>
        generateGrid (*) mulberry32_next (mulberry32 7) ! 3 =
          (if x < 8 / 100 then Some ''qu'' else Some (LETTER_BAG ! nat idx)))"
proof -
  have draws: "binary64 (fst (mulberry32_next (state_after mulberry32_next n (mulberry32 7)))) \<and>
      0 \<le> fst (mulberry32_next (state_after mulberry32_next n (mulberry32 7))) \<and>
      fst (mulberry32_next (state_after mulberry32_next n (mulberry32 7))) < 1" for n
    using mulberry32_next_binary64 mulberry32_next_range by (intro conjI) blast+
  note g = generateGrid_cannot_fail [of mulberry32_next "mulberry32 7" "(*)",
      OF draws mulberry32_product_exact]
  from g have len: "length (generateGrid (*) mulberry32_next (mulberry32 7)) = 16"
    and def: "None \<notin> set (generateGrid (*) mulberry32_next (mulberry32 7))"
    and pos: "\<forall>k<16. \<exists>x s1 y s2 idx.
        mulberry32_next (tileState (*) mulberry32_next (mulberry32 7) k) = (x, s1) \<and>
        mulberry32_next s1 = (y, s2) \<and>
        idx = \<lfloor>y * real (length LETTER_BAG)\<rfloor> \<and> 0 \<le> idx \<and> idx < 43 \<and>
        generateGrid (*) mulberry32_next (mulberry32 7) ! k =
          (if x < 8 / 100 then Some ''qu'' else Some (LETTER_BAG ! nat idx))"
    by (rule conjunct1, rule conjunct2 [THEN conjunct1], rule conjunct2 [THEN conjunct2])
  have three: "(3::nat) < 16" by simp
  have "\<exists>x s1 y s2 idx.
        mulberry32_next (tileState (*) mulberry32_next (mulberry32 7) 3) = (x, s1) \<and>
        mulberry32_next s1 = (y, s2) \<and>
        idx = \<lfloor>y * real (length LETTER_BAG)\<rfloor> \<and> 0 \<le> idx \<and> idx < 43 \<and>
        generateGrid (*) mulberry32_next (mulberry32 7) ! 3 =
          (if x < 8 / 100 then Some ''qu'' else Some (LETTER_BAG ! nat idx))"
    by (rule pos [rule_format, OF three])
  with len def show ?thesis by (intro conjI)
qed

subsection \<open>The loop on the generator of the program\<close>

lemma nat_draw_below_quChance:
  "real n / 4294967296 < quChance \<longleftrightarrow> n < 343597384"
  unfolding quChance_def by linarith

lemma draw_below_quChance:
  "real (unat w) / 4294967296 < quChance \<longleftrightarrow> uint w < 343597384" for w :: u32
  unfolding nat_draw_below_quChance uint_nat by linarith

lemma scaled_draw_floor:
  "\<lfloor>real (unat w) / 4294967296 * real (length LETTER_BAG)\<rfloor> = uint w * 43 div 4294967296"
  for w :: u32
proof -
  have "real (unat w) / 4294967296 * real (length LETTER_BAG) =
      real (unat w * 43) / real 4294967296"
    by (simp add: length_LETTER_BAG del: of_nat_unat)
  then have "\<lfloor>real (unat w) / 4294967296 * real (length LETTER_BAG)\<rfloor> =
      int (unat w * 43 div 4294967296)"
    by (simp only: floor_divide_of_nat_eq)
  also have "\<dots> = uint w * 43 div 4294967296"
    by (simp add: zdiv_int uint_nat del: of_nat_unat)
  finally show ?thesis .
qed

lemma generateGrid_body_words:
  "generateGrid_body (*) mulberry32_next t = tileOfWords t"
  by (simp only: generateGrid_body_def tileOfWords_def mulberry32_next_drawWord
        draw_below_quChance scaled_draw_floor Let_def prod.case)

lemma generateGrid_loop_words:
  "n \<le> 16 \<Longrightarrow>
   generateGrid_loop (*) mulberry32_next (16 - n) t grid = grid @ tilesOfWords n t"
proof (induction n arbitrary: t grid)
  case 0
  then show ?case by simp
next
  case (Suc n)
  obtain tile t' where b: "tileOfWords t = (tile, t')" by (cases "tileOfWords t")
  from Suc.prems have i: "16 - Suc n < 16" "16 - Suc n + 1 = 16 - n" by simp_all
  have "generateGrid_loop (*) mulberry32_next (16 - Suc n) t grid =
      generateGrid_loop (*) mulberry32_next (16 - n) t' (grid @ [tile])"
    by (subst generateGrid_loop.simps) (simp only: i generateGrid_body_words b if_True prod.case)
  also have "\<dots> = (grid @ [tile]) @ tilesOfWords n t'"
    using Suc.prems by (intro Suc.IH) simp
  finally show ?case using b by simp
qed

lemma puzzleGrid_words:
  "puzzleGrid puzzleId = tilesOfWords 16 (mulberry32 (hashStringToSeed puzzleId))"
  using generateGrid_loop_words [of 16 "mulberry32 (hashStringToSeed puzzleId)" "[]"]
  by (simp add: puzzleGrid_def generateGrid_def del: generateGrid_loop.simps)

lemma puzzleGrid_example:
  "puzzleGrid ''2024-01-15-v1'' = map Some
     [''b'', ''d'', ''a'', ''qu'',
      ''qu'', ''e'', ''r'', ''i'',
      ''qu'', ''qu'', ''e'', ''i'',
      ''k'', ''s'', ''z'', ''c'']"
  unfolding puzzleGrid_words by code_simp

section \<open>The pipeline from puzzle identifier to grid\<close>

lemma hashStringToSeed_example: "hashStringToSeed ''2024-01-15-v1'' = 3140140472"
  by code_simp

text \<open>
  C1. Determinism of the pipeline from identifier to grid: \<open>hashStringToSeed\<close> and the
  composition of \<open>hashStringToSeed\<close>, \<open>mulberry32\<close> and \<open>generateGrid\<close> are functions of the
  identifier alone, so two evaluations on the same identifier give the same unsigned
  32-bit seed and the same grid of 16 tiles.
\<close>

theorem id_to_grid_deterministic:
  assumes "s = s'"
  shows "hashStringToSeed s = hashStringToSeed s' \<and> unat (hashStringToSeed s) < 2 ^ 32 \<and>
    puzzleGrid s = puzzleGrid s' \<and> length (puzzleGrid s) = 16"
proof -
  have "unat (hashStringToSeed s) < 2 ^ 32"
    using unsigned_less [of "hashStringToSeed s", where ?'a = nat] by simp
  moreover have "length (puzzleGrid s) = 16"
    by (simp add: puzzleGrid_def generateGrid_eq)
  ultimately show ?thesis using assms by simp
qed

theorem id_to_grid_deterministic_witness:
  "''2024-01-15-v1'' = ''2024-01-15-v1'' \<and>
   hashStringToSeed ''2024-01-15-v1'' = hashStringToSeed ''2024-01-15-v1'' \<and>
   unat (hashStringToSeed ''2024-01-15-v1'') < 2 ^ 32 \<and>
   puzzleGrid ''2024-01-15-v1'' = puzzleGrid ''2024-01-15-v1'' \<and>
   length (puzzleGrid ''2024-01-15-v1'') = 16"
  using id_to_grid_deterministic [of "''2024-01-15-v1''" "''2024-01-15-v1''"]
  by simp

section \<open>Adjacency\<close>

lemma same_coord_iff: "(a div 4 = b div 4 \<and> a mod 4 = b mod 4) \<longleftrightarrow> a = b" for a b :: nat
  by (metis div_mult_mod_eq)

text \<open>
  C7. Adjacency: \<open>isAdjacent a b\<close> holds exactly when \<open>a\<close> and \<open>b\<close> differ and the larger of
  the row distance \<open>|a div 4 - b div 4|\<close> and the column distance \<open>|a mod 4 - b mod 4|\<close> is 1;
  \<open>isAdjacent\<close> is symmetric and irreflexive. This holds for all positions, those from 0
  to 15 in particular.
\<close>

theorem isAdjacent_chebyshev:
  "(isAdjacent a b \<longleftrightarrow>
      a \<noteq> b \<and> max \<bar>int (a div 4) - int (b div 4)\<bar> \<bar>int (a mod 4) - int (b mod 4)\<bar> = 1) \<and>
   isAdjacent a b = isAdjacent b a \<and> \<not> isAdjacent a a"
proof -
  have 1: "isAdjacent a b \<longleftrightarrow>
      a \<noteq> b \<and> max \<bar>int (a div 4) - int (b div 4)\<bar> \<bar>int (a mod 4) - int (b mod 4)\<bar> = 1" for a b
    using same_coord_iff [of a b]
    by (auto simp: isAdjacent_def indexToCoord_def Let_def)
  have 2: "isAdjacent a b = isAdjacent b a"
    unfolding 1 by (auto simp: abs_minus_commute)
  have 3: "\<not> isAdjacent a a"
    unfolding 1 by simp
  from 1 2 3 show ?thesis by blast
qed

section \<open>The solver\<close>

lemma set_setAdd: "set (setAdd w rs) = insert w (set rs)"
  by (auto simp: setAdd_def)


lemma dfs_pruned:
  "current @ strOf (gridAt g index) \<notin> pre \<Longrightarrow> dfs g dict pre index visitedMask current results = results"
  by (subst dfs.simps) (simp add: Let_def)

lemma dfs_step:
  "current @ strOf (gridAt g index) \<in> pre \<Longrightarrow>
   dfs g dict pre index visitedMask current results =
     fold (\<lambda>n res.
            if bit (visitedMask OR shl1 index) (n mod 32) then res
            else if \<not> isAdjacent index n then res
            else dfs g dict pre n (visitedMask OR shl1 index) (current @ strOf (gridAt g index)) res)
       [0..<16]
       (if 3 \<le> length (current @ strOf (gridAt g index)) \<and> current @ strOf (gridAt g index) \<in> dict
        then setAdd (current @ strOf (gridAt g index)) results else results)"
  by (subst dfs.simps) (simp add: Let_def and_shl1_eq_0)

declare dfs.simps [simp del]

lemma dfs_rule:
  assumes "I index visitedMask current" and "Q results"
    and add: "\<And>index visitedMask current results.
        \<lbrakk>I index visitedMask current; Q results; current @ strOf (gridAt g index) \<in> pre;
         3 \<le> length (current @ strOf (gridAt g index)); current @ strOf (gridAt g index) \<in> dict\<rbrakk>
        \<Longrightarrow> Q (setAdd (current @ strOf (gridAt g index)) results)"
    and nxt: "\<And>index visitedMask current n.
        \<lbrakk>I index visitedMask current; current @ strOf (gridAt g index) \<in> pre; n < 16;
         \<not> bit (visitedMask OR shl1 index) n; isAdjacent index n\<rbrakk>
        \<Longrightarrow> I n (visitedMask OR shl1 index) (current @ strOf (gridAt g index))"
  shows "Q (dfs g dict pre index visitedMask current results)"
  using assms
proof (induction g dict pre index visitedMask current results rule: dfs.induct)
  case (1 g dict pre index visitedMask current results)
  let ?w = "current @ strOf (gridAt g index)"
  let ?m = "visitedMask OR shl1 index"
  note add = "1.prems"(3) and nxt = "1.prems"(4)
  show ?case
  proof (cases "?w \<in> pre")
    case False
    then show ?thesis using "1.prems"(2) by (simp add: dfs_pruned)
  next
    case True
    let ?rs1 = "if 3 \<le> length ?w \<and> ?w \<in> dict then setAdd ?w results else results"
    let ?f = "\<lambda>n res.
            if bit ?m (n mod 32) then res
            else if \<not> isAdjacent index n then res
            else dfs g dict pre n ?m ?w res"
    have q1: "Q ?rs1"
      using "1.prems"(1,2) True add by simp
    have IH: "Q (dfs g dict pre n ?m ?w acc)"
      if "n < 16" "\<not> bit ?m (n mod 32)" "isAdjacent index n" "Q acc" for n acc
    proof (rule "1.IH" [OF refl refl _ refl refl refl, of n acc])
      show "\<not> ?w \<notin> pre" using True by simp
      show "n \<in> set [0..<16]" using that by simp
      show "\<not> ?m AND shl1 n \<noteq> 0" using that by (simp add: and_shl1_eq_0)
      show "\<not> \<not> isAdjacent index n" using that by simp
      show "I n ?m ?w" using that "1.prems"(1) True by (intro nxt) simp_all
      show "Q acc" by fact
    qed (erule (4) add, erule (4) nxt)
    have "Q (fold ?f [0..<16] ?rs1)"
    proof (rule fold_invariant [where Q = "\<lambda>n. n < 16"])
      show "n < 16" if "n \<in> set [0..<16]" for n using that by simp
      show "Q ?rs1" by (rule q1)
      show "Q (?f n acc)" if "n < 16" "Q acc" for n acc
        using that IH [of n acc] by simp
    qed
    then show ?thesis by (simp only: dfs_step [OF True])
  qed
qed

lemma dfs_mono: "w \<in> set results \<Longrightarrow> w \<in> set (dfs g dict pre index visitedMask current results)"
  by (rule dfs_rule [where I = "\<lambda>_ _ _. True" and Q = "\<lambda>rs. w \<in> set rs"])
     (simp_all add: set_setAdd)



subsection \<open>Paths\<close>

lemma adjacentChain_snoc:
  "adjacentChain (p @ [a]) \<Longrightarrow> isAdjacent a b \<Longrightarrow> adjacentChain (p @ [a, b])"
  by (induction p rule: adjacentChain.induct) simp_all

lemma isPath_single: "i < 16 \<Longrightarrow> isPath [i]"
  by (simp add: isPath_def)

lemma isPath_snoc:
  assumes "isPath (p @ [a])" "isAdjacent a b" "b < 16" "b \<notin> set p" "b \<noteq> a"
  shows "isPath ((p @ [a]) @ [b])"
  using assms by (auto simp: isPath_def adjacentChain_snoc)

lemma spell_append: "spell g (p @ q) = spell g p @ spell g q"
  by (simp add: spell_def)

lemma spell_single: "spell g [i] = strOf (gridAt g i)"
  by (simp add: spell_def)

lemma spell_Cons: "spell g (i # p) = strOf (gridAt g i) @ spell g p"
  by (simp add: spell_def)

lemma spell_Nil: "spell g [] = []"
  by (simp add: spell_def)

lemma dfs_sound:
  assumes ctx: "\<exists>p. isPath (p @ [index]) \<and> spell g p = current \<and> (\<forall>k\<in>set p. bit visitedMask k)"
    and res: "\<forall>w\<in>set results. w \<in> dict \<and> (\<exists>q. isPath q \<and> spell g q = w)"
  shows "\<forall>w\<in>set (dfs g dict pre index visitedMask current results).
           w \<in> dict \<and> (\<exists>q. isPath q \<and> spell g q = w)"
proof (rule dfs_rule [where
      I = "\<lambda>index visitedMask current.
             \<exists>p. isPath (p @ [index]) \<and> spell g p = current \<and> (\<forall>k\<in>set p. bit visitedMask k)"
      and Q = "\<lambda>results. \<forall>w\<in>set results. w \<in> dict \<and> (\<exists>q. isPath q \<and> spell g q = w)",
      OF ctx res], goal_cases)
  case (1 index visitedMask current results)
  from 1(1) obtain p where p: "isPath (p @ [index])" "spell g p = current" by blast
  then have "spell g (p @ [index]) = current @ strOf (gridAt g index)"
    by (simp add: spell_append spell_single)
  with p(1) have "\<exists>q. isPath q \<and> spell g q = current @ strOf (gridAt g index)" by blast
  with 1(2,5) show ?case by (simp add: set_setAdd)
next
  case (2 index visitedMask current n)
  from 2(1) obtain p where p: "isPath (p @ [index])" "spell g p = current"
    "\<forall>k\<in>set p. bit visitedMask k" by blast
  from p(1) have i: "index < 16" by (simp add: isPath_def)
  then have m: "index mod 32 = index" by simp
  from 2(4) have nb: "\<not> bit visitedMask n" "n \<noteq> index"
    by (simp_all add: bit_or_shl1 m)
  with p(3) have "n \<notin> set p" by blast
  with p(1) 2(3,5) nb have "isPath ((p @ [index]) @ [n])"
    by (intro isPath_snoc)
  moreover have "spell g (p @ [index]) = current @ strOf (gridAt g index)"
    using p(2) by (simp add: spell_append spell_single)
  moreover have "\<forall>k\<in>set (p @ [index]). bit (visitedMask OR shl1 index) k"
    using p(3) by (simp add: bit_or_shl1 m)
  ultimately show ?case by blast
qed

lemma solveGrid_results_sound:
  "\<forall>w\<in>set (fold (\<lambda>i res. dfs g dict pre i 0 [] res) [0..<16] []).
      w \<in> dict \<and> (\<exists>q. isPath q \<and> spell g q = w)"
proof (rule fold_invariant [where Q = "\<lambda>i. i < 16"])
  show "i < 16" if "i \<in> set [0..<16]" for i using that by simp
  show "\<forall>w\<in>set []. w \<in> dict \<and> (\<exists>q. isPath q \<and> spell g q = w)" by simp
  show "\<forall>w\<in>set (dfs g dict pre i 0 [] res). w \<in> dict \<and> (\<exists>q. isPath q \<and> spell g q = w)"
    if "i < 16" "\<forall>w\<in>set res. w \<in> dict \<and> (\<exists>q. isPath q \<and> spell g q = w)" for i res
  proof (rule dfs_sound [OF _ that(2)])
    have "isPath ([] @ [i]) \<and> spell g [] = [] \<and> (\<forall>k\<in>set []. bit (0::u32) k)"
      using that(1) by (simp add: isPath_single spell_Nil)
    then show "\<exists>p. isPath (p @ [i]) \<and> spell g p = [] \<and> (\<forall>k\<in>set p. bit (0::u32) k)" ..
  qed
qed

subsection \<open>Sorting\<close>

lemma set_insertBy: "set (insertBy cmp x ys) = insert x (set ys)"
  by (induction ys) auto

lemma set_sortBy: "set (sortBy cmp xs) = set xs"
  by (induction xs) (simp_all add: sortBy_def set_insertBy)



lemma allWords_solveGrid:
  "allWords (solveGrid localeCompare g dict pre) =
     sortBy (compareWords localeCompare) (fold (\<lambda>i res. dfs g dict pre i 0 [] res) [0..<16] [])"
  by (simp add: solveGrid_def Let_def)

lemma demo_solution:
  "allWords (solveGrid lexCompare demoGrid (words (buildDictionary demoText))
     (prefixes (buildDictionary demoText))) = [''cats'', ''bat'', ''cat'']"
  by code_simp

text \<open>
  C2. Solver soundness: for every grid, every word set and every prefix set (those built
  by \<open>buildDictionary\<close> among them), every word in the list returned by \<open>solveGrid\<close> is a
  member of the word set and has a witness path: a list of distinct grid indices, each
  adjacent to the next by \<open>isAdjacent\<close>, whose tiles' strings concatenate to the word.
\<close>

theorem solveGrid_sound:
  assumes "w \<in> set (allWords (solveGrid localeCompare g dict pre))"
  shows "w \<in> dict \<and> (\<exists>p. isPath p \<and> spell g p = w)"
  using assms solveGrid_results_sound [of g dict pre]
  by (simp add: allWords_solveGrid set_sortBy)

theorem solveGrid_sound_witness:
  "''bat'' \<in> set (allWords (solveGrid lexCompare demoGrid (words (buildDictionary demoText))
      (prefixes (buildDictionary demoText)))) \<and>
   ''bat'' \<in> words (buildDictionary demoText) \<and>
   (\<exists>p. isPath p \<and> spell demoGrid p = ''bat'')"
proof -
  have h: "''bat'' \<in> set (allWords (solveGrid lexCompare demoGrid (words (buildDictionary demoText))
      (prefixes (buildDictionary demoText))))"
    by (simp add: demo_solution)
  from solveGrid_sound [OF h] h show ?thesis by simp
qed


subsection \<open>The dictionary index\<close>

lemma fold_insert_take:
  "fold (\<lambda>i ps. insert (take i w) ps) is P = P \<union> (\<lambda>i. take i w) ` set is"
  by (induction "is" arbitrary: P) auto

lemma indexInvD:
  assumes "indexInv d" and "w \<in> words d"
  shows "3 \<le> length w" and "list_all isLowerAZ w"
    and "1 \<le> i \<Longrightarrow> i \<le> length w \<Longrightarrow> take i w \<in> prefixes d"
  using assms unfolding indexInv_def by blast+

lemma buildDictionary_line_inv:
  assumes "indexInv d"
  shows "indexInv (buildDictionary_line line d)"
proof -
  let ?w = "normalizeWord (trim line)"
  show ?thesis
  proof (cases "?w = [] \<or> length ?w < 3 \<or> \<not> (?w \<noteq> [] \<and> list_all isLowerAZ ?w)")
    case True
    then have "buildDictionary_line line d = d"
      by (auto simp: buildDictionary_line_def Let_def)
    with assms show ?thesis by simp
  next
    case False
    define S where "S = set [1..<length ?w + 1]"
    have S: "i \<in> S" if "1 \<le> i" "i \<le> length ?w" for i
      using that unfolding S_def by (simp del: upt_Suc)
    let ?P = "prefixes d \<union> (\<lambda>i. take i ?w) ` S"
    from False have e: "buildDictionary_line line d = \<lparr>words = insert ?w (words d), prefixes = ?P\<rparr>"
      unfolding S_def by (simp add: buildDictionary_line_def Let_def fold_insert_take del: upt_Suc set_upt)
    have "3 \<le> length w \<and> list_all isLowerAZ w \<and>
            (\<forall>i. 1 \<le> i \<and> i \<le> length w \<longrightarrow> take i w \<in> ?P)"
      if "w \<in> insert ?w (words d)" for w
    proof (cases "w = ?w")
      case True
      have "take i ?w \<in> ?P" if "1 \<le> i" "i \<le> length ?w" for i
        using S [OF that] by blast
      moreover from False have "3 \<le> length ?w" "list_all isLowerAZ ?w" by auto
      ultimately show ?thesis unfolding True by blast
    next
      case False
      with that have "w \<in> words d" by simp
      from indexInvD [OF assms this] show ?thesis by blast
    qed
    then show ?thesis
      unfolding e indexInv_def by simp
  qed
qed

lemma fold_buildDictionary_line_inv:
  "indexInv d \<Longrightarrow> indexInv (fold buildDictionary_line ls d)"
  by (induction ls arbitrary: d) (simp_all add: buildDictionary_line_inv)

lemma buildDictionary_inv: "indexInv (buildDictionary rawText)"
  unfolding buildDictionary_def
  by (rule fold_buildDictionary_line_inv) (simp add: indexInv_def)

text \<open>
  C5. Prefix closure of the dictionary index: for every raw text, every word \<open>w\<close> of the
  word set returned by \<open>buildDictionary\<close> has each of its prefixes of lengths 1 to the
  length of \<open>w\<close> in the prefix set; in particular the word set is a subset of the prefix
  set.
\<close>

theorem buildDictionary_prefix_closed:
  assumes "w \<in> words (buildDictionary rawText)" and "1 \<le> i" and "i \<le> length w"
  shows "take i w \<in> prefixes (buildDictionary rawText) \<and>
         words (buildDictionary rawText) \<subseteq> prefixes (buildDictionary rawText)"
proof -
  note inv = indexInvD [OF buildDictionary_inv [of rawText]]
  have "take i w \<in> prefixes (buildDictionary rawText)"
    using assms by (rule inv(3))
  moreover have "v \<in> prefixes (buildDictionary rawText)" if "v \<in> words (buildDictionary rawText)" for v
  proof -
    from inv(1) [OF that] have "1 \<le> length v" by simp
    from inv(3) [OF that this order_refl] show ?thesis by simp
  qed
  ultimately show ?thesis by blast
qed

theorem buildDictionary_prefix_closed_witness:
  "''cats'' \<in> words (buildDictionary demoText) \<and> (1::nat) \<le> 2 \<and> 2 \<le> length ''cats'' \<and>
   take 2 ''cats'' \<in> prefixes (buildDictionary demoText) \<and>
   words (buildDictionary demoText) \<subseteq> prefixes (buildDictionary demoText)"
proof -
  have h: "''cats'' \<in> words (buildDictionary demoText)" by code_simp
  have "(1::nat) \<le> 2" "2 \<le> length ''cats''" by simp_all
  from buildDictionary_prefix_closed [OF h this] h show ?thesis by simp
qed

section \<open>Completeness of the solver\<close>

lemma fold_reaches:
  assumes "n \<in> set xs"
    and hit: "\<And>acc. w \<in> set (f n acc)"
    and keep: "\<And>x acc. w \<in> set acc \<Longrightarrow> w \<in> set (f x acc)"
  shows "w \<in> set (fold f xs acc)"
  using assms(1)
proof (induction xs arbitrary: acc)
  case Nil
  then show ?case by simp
next
  case (Cons x xs)
  have kept: "w \<in> set (fold f ys a)" if "w \<in> set a" for ys a
    using that by (induction ys arbitrary: a) (simp_all add: keep)
  show ?case
  proof (cases "x = n")
    case True
    then show ?thesis using hit [of acc] by (simp add: kept)
  next
    case False
    with Cons.prems have "n \<in> set xs" by simp
    then show ?thesis using Cons.IH by simp
  qed
qed

lemma fold_keeps:
  assumes "w \<in> set acc" and keep: "\<And>x acc. w \<in> set acc \<Longrightarrow> w \<in> set (f x acc)"
  shows "w \<in> set (fold f xs acc)"
  using assms(1) by (induction xs arbitrary: acc) (simp_all add: keep)

lemma dfs_complete:
  assumes "isPath (index # q)"
    and "\<forall>k\<in>set (index # q). \<not> bit visitedMask k"
    and "\<And>j. j < length (index # q) \<Longrightarrow> current @ spell g (take (Suc j) (index # q)) \<in> pre"
    and "current @ spell g (index # q) \<in> dict"
    and "3 \<le> length (current @ spell g (index # q))"
  shows "current @ spell g (index # q) \<in> set (dfs g dict pre index visitedMask current results)"
  using assms
proof (induction q arbitrary: index visitedMask current results)
  case Nil
  let ?w = "current @ strOf (gridAt g index)"
  let ?m = "visitedMask OR shl1 index"
  from Nil.prems(3) [of 0] have pre: "?w \<in> pre" by (simp add: spell_single)
  let ?f = "\<lambda>n res.
            if bit ?m (n mod 32) then res
            else if \<not> isAdjacent index n then res
            else dfs g dict pre n ?m ?w res"
  have "?w \<in> set (fold ?f [0..<16] (setAdd ?w results))"
    by (rule fold_keeps) (simp_all add: set_setAdd dfs_mono)
  then show ?case
    using Nil.prems(4,5) by (simp add: dfs_step [OF pre] spell_single)
next
  case (Cons n q)
  let ?w = "current @ strOf (gridAt g index)"
  let ?m = "visitedMask OR shl1 index"
  let ?word = "current @ spell g (index # n # q)"
  from Cons.prems(3) [of 0] have pre: "?w \<in> pre" by (simp add: spell_single)
  let ?f = "\<lambda>n res.
            if bit ?m (n mod 32) then res
            else if \<not> isAdjacent index n then res
            else dfs g dict pre n ?m ?w res"
  let ?rs1 = "if 3 \<le> length ?w \<and> ?w \<in> dict then setAdd ?w results else results"
  from Cons.prems(1) have path: "isPath (n # q)" and i: "index < 16" and n: "n < 16"
    and adj: "isAdjacent index n" and ne: "n \<noteq> index" and fresh: "index \<notin> set q"
    by (auto simp: isPath_def)
  have m: "index mod 32 = index" "n mod 32 = n" using i n by simp_all
  have w: "?word = ?w @ spell g (n # q)" by (simp add: spell_Cons)
  have unv: "\<forall>k\<in>set (n # q). \<not> bit ?m k"
    using Cons.prems(2) ne fresh by (auto simp: bit_or_shl1 m)
  have hit: "?word \<in> set (dfs g dict pre n ?m ?w acc)" for acc
    unfolding w
  proof (rule Cons.IH [OF path unv])
    show "?w @ spell g (take (Suc j) (n # q)) \<in> pre" if "j < length (n # q)" for j
      using Cons.prems(3) [of "Suc j"] that by (simp add: spell_Cons)
    show "?w @ spell g (n # q) \<in> dict" using Cons.prems(4) by (simp add: spell_Cons)
    show "3 \<le> length (?w @ spell g (n # q))" using Cons.prems(5) by (simp add: spell_Cons)
  qed
  have "?word \<in> set (fold ?f [0..<16] ?rs1)"
  proof (rule fold_reaches [where n = n])
    show "n \<in> set [0..<16]" using n by simp
    show "?word \<in> set (?f n acc)" for acc
      using unv adj hit [of acc] by (simp add: m)
    show "?word \<in> set (?f x acc)" if "?word \<in> set acc" for x acc
      using that by (simp add: dfs_mono)
  qed
  then show ?case by (simp only: dfs_step [OF pre])
qed


lemma solveGrid_results_complete:
  assumes "isPath (i # q)"
    and "\<And>j. j < length (i # q) \<Longrightarrow> spell g (take (Suc j) (i # q)) \<in> pre"
    and "spell g (i # q) \<in> dict"
    and "3 \<le> length (spell g (i # q))"
  shows "spell g (i # q) \<in> set (fold (\<lambda>i res. dfs g dict pre i 0 [] res) [0..<16] [])"
proof (rule fold_reaches [where n = i])
  from assms(1) show "i \<in> set [0..<16]" by (simp add: isPath_def)
  show "spell g (i # q) \<in> set (dfs g dict pre i 0 [] acc)" for acc
    using dfs_complete [of i q 0 "[]" g pre dict acc] assms by simp
  show "spell g (i # q) \<in> set (dfs g dict pre x 0 [] acc)" if "spell g (i # q) \<in> set acc" for x acc
    using that by (rule dfs_mono)
qed

lemma isPath_Cons: "isPath (a # p) \<Longrightarrow> isPath p"
  by (cases p) (simp_all add: isPath_def)

lemma isPath_dropWhile: "isPath p \<Longrightarrow> isPath (dropWhile P p)"
  by (induction p) (auto dest: isPath_Cons)

lemma spell_dropWhile_empty:
  "spell g (dropWhile (\<lambda>i. strOf (gridAt g i) = []) p) = spell g p"
  by (induction p) (simp_all add: spell_Cons)

lemma solveGrid_complete_general:
  assumes closed: "\<And>v i. \<lbrakk>v \<in> dict; 1 \<le> i; i \<le> length v\<rbrakk> \<Longrightarrow> take i v \<in> pre"
    and long: "\<And>v. v \<in> dict \<Longrightarrow> 3 \<le> length v"
    and w: "w \<in> dict" and p: "isPath p" "spell g p = w"
  shows "w \<in> set (allWords (solveGrid localeCompare g dict pre))"
proof -
  define p' where "p' = dropWhile (\<lambda>i. strOf (gridAt g i) = []) p"
  have path: "isPath p'" unfolding p'_def using p(1) by (rule isPath_dropWhile)
  have sp: "spell g p' = w" unfolding p'_def using p(2) by (simp add: spell_dropWhile_empty)
  from long [OF w] have len: "3 \<le> length w" .
  with sp have "p' \<noteq> []" by (auto simp: spell_Nil)
  then obtain i q where iq: "p' = i # q" by (cases p') auto
  have first: "strOf (gridAt g i) \<noteq> []"
    using hd_dropWhile [of "\<lambda>i. strOf (gridAt g i) = []" p] \<open>p' \<noteq> []\<close> iq
    unfolding p'_def by simp
  have pre: "spell g (take (Suc j) (i # q)) \<in> pre" if "j < length (i # q)" for j
  proof -
    let ?u = "spell g (take (Suc j) (i # q))"
    have "?u \<noteq> []" using first by (simp add: spell_Cons)
    then have 1: "1 \<le> length ?u" by (simp add: Suc_le_eq)
    have split: "w = ?u @ spell g (drop (Suc j) (i # q))"
      by (metis append_take_drop_id spell_append sp iq)
    then have eq: "?u = take (length ?u) w"
      by (metis append_eq_conv_conj)
    from split have "length w = length ?u + length (spell g (drop (Suc j) (i # q)))"
      by (metis length_append)
    then have 2: "length ?u \<le> length w" by simp
    from closed [OF w 1 2] eq show ?thesis by simp
  qed
  have "spell g (i # q) \<in> set (fold (\<lambda>i res. dfs g dict pre i 0 [] res) [0..<16] [])"
  proof (rule solveGrid_results_complete)
    show "isPath (i # q)" using path iq by simp
    show "spell g (take (Suc j) (i # q)) \<in> pre" if "j < length (i # q)" for j
      using that by (rule pre)
    show "spell g (i # q) \<in> dict" using sp iq w by simp
    show "3 \<le> length (spell g (i # q))" using sp iq len by simp
  qed
  then show ?thesis
    using sp iq by (simp add: allWords_solveGrid set_sortBy)
qed

text \<open>
  C3. Solver completeness: for every grid and every dictionary index built by
  \<open>buildDictionary\<close>, every word of the word set that some witness path spells (distinct
  grid positions, each adjacent to the next) appears in the output of \<open>solveGrid\<close>; the
  pruning by prefixes loses no such word.
\<close>

theorem solveGrid_complete:
  assumes "w \<in> words (buildDictionary rawText)" and "isPath p" and "spell g p = w"
  shows "w \<in> set (allWords (solveGrid localeCompare g (words (buildDictionary rawText))
                     (prefixes (buildDictionary rawText))))"
proof (rule solveGrid_complete_general [OF _ _ assms])
  note inv = indexInvD [OF buildDictionary_inv [of rawText]]
  show "take i v \<in> prefixes (buildDictionary rawText)"
    if "v \<in> words (buildDictionary rawText)" "1 \<le> i" "i \<le> length v" for v i
    using that by (rule inv(3))
  show "3 \<le> length v" if "v \<in> words (buildDictionary rawText)" for v
    using that by (rule inv(1))
qed

theorem solveGrid_complete_witness:
  "''cats'' \<in> words (buildDictionary demoText) \<and> isPath [0, 1, 2, 3] \<and>
   spell demoGrid [0, 1, 2, 3] = ''cats'' \<and>
   ''cats'' \<in> set (allWords (solveGrid lexCompare demoGrid (words (buildDictionary demoText))
                     (prefixes (buildDictionary demoText))))"
proof -
  have 1: "''cats'' \<in> words (buildDictionary demoText)" by code_simp
  have 2: "isPath [0, 1, 2, 3]" by code_simp
  have 3: "spell demoGrid [0, 1, 2, 3] = ''cats''" by code_simp
  from solveGrid_complete [OF 1 2 3] 1 2 3 show ?thesis by simp
qed

section \<open>Ordering of the solver output\<close>







lemma czechCompare_le_0: "czechCompare a b \<le> 0 \<longleftrightarrow> czechKeys a \<le> czechKeys b"
  by (auto simp: czechCompare_def)

lemma czechCompare_consistent:
  "czechCompare a b \<le> 0 \<or> czechCompare b a \<le> 0"
  "czechCompare a b \<le> 0 \<Longrightarrow> czechCompare b c \<le> 0 \<Longrightarrow> czechCompare a c \<le> 0"
  unfolding czechCompare_le_0 by auto





section \<open>Scoring and the found words\<close>

text \<open>
  C4. Scoring rule: for every selection submitted while the handler accepts submissions
  (the game is running and not finished and the solution set is there, which is also
  when the Submit button is enabled), with \<open>word\<close> the normalized candidate, the handler
  records one submission: status invalid with delta -1 if \<open>word\<close> has fewer than 3
  letters; else status duplicate with delta -1 if \<open>word\<close> is already in the found set;
  else status new with delta length - 2 if \<open>word\<close> is in the solution set of the active
  grid; else status invalid with delta -1. The new score is the old score plus the
  delta, clamped to a minimum of 0.
\<close>

theorem handleSubmit_scoring:
  assumes "running st" and "\<not> finished st"
    and "memoSolver pz = Some s" and "memoValidWordSet pz = Some V"
  shows "\<exists>sub. submissions (handleSubmit pz st) = sub # submissions st \<and>
     score (handleSubmit pz st) = max 0 (score st + subDelta sub) \<and>
     (subStatus sub, subDelta sub) =
       (let word = normalizeWord (currentWord pz st)
        in if length word < 3 then (Invalid, - 1)
           else if word \<in> foundWords st then (Duplicate, - 1)
           else if word \<in> V then (New, int (length word) - 2)
           else (Invalid, - 1))"
  using assms by (simp add: handleSubmit_def Let_def)

lemma demoPuzzle_memo:
  "memoSolver demoPuzzle = Some (solveGrid lexCompare demoGrid (words (buildDictionary demoText))
      (prefixes (buildDictionary demoText)))"
  "memoValidWordSet demoPuzzle = Some {''cats'', ''bat'', ''cat''}"
  using demo_solution by (simp_all add: demoPuzzle_def Let_def)

lemma demoState_fields: "running demoState" "\<not> finished demoState"
  by (simp_all add: demoState_def initialState_def)

theorem handleSubmit_scoring_witness:
  "running demoState \<and> \<not> finished demoState \<and>
   memoSolver demoPuzzle = Some (solveGrid lexCompare demoGrid (words (buildDictionary demoText))
      (prefixes (buildDictionary demoText))) \<and>
   memoValidWordSet demoPuzzle = Some {''cats'', ''bat'', ''cat''} \<and>
   (\<exists>sub. submissions (handleSubmit demoPuzzle demoState) = sub # submissions demoState \<and>
     score (handleSubmit demoPuzzle demoState) = max 0 (score demoState + subDelta sub) \<and>
     (subStatus sub, subDelta sub) =
       (let word = normalizeWord (currentWord demoPuzzle demoState)
        in if length word < 3 then (Invalid, - 1)
           else if word \<in> foundWords demoState then (Duplicate, - 1)
           else if word \<in> {''cats'', ''bat'', ''cat''} then (New, int (length word) - 2)
           else (Invalid, - 1)))"
  using handleSubmit_scoring [OF demoState_fields demoPuzzle_memo] demoState_fields demoPuzzle_memo
  by (intro conjI)

lemma handleSubmit_example:
  "map (\<lambda>sub. (subWord sub, subDelta sub, subStatus sub))
     (submissions (handleSubmit demoPuzzle demoState)) = [(''cat'', 1, New)] \<and>
   score (handleSubmit demoPuzzle demoState) = 1"
  by code_simp

lemma handleSubmit_foundWords:
  "foundWords (handleSubmit pz st) \<subseteq>
     foundWords st \<union> (case memoValidWordSet pz of None \<Rightarrow> {} | Some V \<Rightarrow> V)"
  by (auto simp: handleSubmit_def Let_def split: option.splits if_splits)

lemma step_foundWords:
  "foundWords (step pz st ev) \<subseteq>
     foundWords st \<union> (case memoValidWordSet pz of None \<Rightarrow> {} | Some V \<Rightarrow> V)"
proof (cases ev)
  case (TileClick index)
  then show ?thesis
    by (auto simp: handleTileClick_def split: option.splits if_splits)
next
  case Clear
  then show ?thesis by (simp add: handleClear_def)
next
  case Submit
  then show ?thesis using handleSubmit_foundWords [of pz st] by simp
next
  case Start
  then show ?thesis by (auto simp: handleStart_def split: if_splits)
next
  case Tick
  then show ?thesis by (auto simp: timerTick_def split: if_splits)
qed

lemma run_foundWords:
  "foundWords st \<subseteq> W \<Longrightarrow> (case memoValidWordSet pz of None \<Rightarrow> {} | Some V \<Rightarrow> V) \<subseteq> W
     \<Longrightarrow> foundWords (run pz st evs) \<subseteq> W"
  unfolding run_def
proof (induction evs arbitrary: st)
  case Nil
  then show ?case by simp
next
  case (Cons ev evs)
  have "foundWords (step pz st ev) \<subseteq> W"
    using step_foundWords [of pz st ev] Cons.prems by blast
  then show ?case using Cons.IH Cons.prems(2) by simp
qed

lemma usePuzzle_validWordSet:
  "pid \<noteq> [] \<Longrightarrow> memoValidWordSet (usePuzzle localeCompare (Some pid) (Some d) (Some p)) =
      Some (set (allWords (solveGrid localeCompare (puzzleGrid pid) d p)))"
  by (simp add: usePuzzle_def puzzleGrid_def Let_def)

text \<open>
  C10. Invariant of the game state: starting from a fresh game (empty found-words set),
  in every state reached by handler steps (tile clicks, clear, submit, start, timer
  ticks) the found-words set is a subset of the solution set of the solver for the active
  grid, so it only ever holds dictionary words that a path on the grid spells.
\<close>

theorem foundWords_within_solution:
  assumes "foundWords st0 = {}" and "pid \<noteq> []"
  shows "foundWords (run (usePuzzle localeCompare (Some pid) (Some d) (Some p)) st0 evs)
           \<subseteq> set (allWords (solveGrid localeCompare (puzzleGrid pid) d p)) \<and>
         (\<forall>w\<in>foundWords (run (usePuzzle localeCompare (Some pid) (Some d) (Some p)) st0 evs).
            w \<in> d \<and> (\<exists>path. isPath path \<and> spell (puzzleGrid pid) path = w))"
proof -
  let ?pz = "usePuzzle localeCompare (Some pid) (Some d) (Some p)"
  let ?W = "set (allWords (solveGrid localeCompare (puzzleGrid pid) d p))"
  have sub: "foundWords (run ?pz st0 evs) \<subseteq> ?W"
    by (rule run_foundWords) (simp_all add: assms usePuzzle_validWordSet)
  moreover have "w \<in> d \<and> (\<exists>path. isPath path \<and> spell (puzzleGrid pid) path = w)"
    if "w \<in> ?W" for w
    using that solveGrid_results_sound [of "puzzleGrid pid" d p]
    by (simp add: allWords_solveGrid set_sortBy)
  ultimately show ?thesis by blast
qed

lemma usePuzzle_eq:
  "pid \<noteq> [] \<Longrightarrow> usePuzzle localeCompare (Some pid) (Some d) (Some p) =
     \<lparr>memoGrid = Some (puzzleGrid pid),
      memoSolver = Some (solveGrid localeCompare (puzzleGrid pid) d p),
      memoValidWordSet = Some (set (allWords (solveGrid localeCompare (puzzleGrid pid) d p)))\<rparr>"
  by (simp add: usePuzzle_def puzzleGrid_def Let_def)

lemma day_solver:
  "solveGrid lexCompare
     (map Some [''b'', ''d'', ''a'', ''qu'', ''qu'', ''e'', ''r'', ''i'',
                ''qu'', ''qu'', ''e'', ''i'', ''k'', ''s'', ''z'', ''c''])
     (words (buildDictionary dayText)) (prefixes (buildDictionary dayText)) =
   \<lparr>allWords = [''dear'', ''bed'', ''red'']\<rparr>"
  by code_simp

lemma day_run:
  "foundWords (run (usePuzzle lexCompare (Some ''2024-01-15-v1'')
                      (Some (words (buildDictionary dayText)))
                      (Some (prefixes (buildDictionary dayText))))
                 readyState [Start, TileClick 0, TileClick 5, TileClick 1, Submit]) = {''bed''}"
proof -
  have ne: "''2024-01-15-v1'' \<noteq> []" by simp
  show ?thesis
    unfolding usePuzzle_eq [OF ne] puzzleGrid_example day_solver by code_simp
qed

theorem foundWords_within_solution_witness:
  "foundWords readyState = {} \<and> ''2024-01-15-v1'' \<noteq> [] \<and>
   foundWords (run (usePuzzle lexCompare (Some ''2024-01-15-v1'')
                      (Some (words (buildDictionary dayText)))
                      (Some (prefixes (buildDictionary dayText))))
                 readyState [Start, TileClick 0, TileClick 5, TileClick 1, Submit]) = {''bed''} \<and>
   {''bed''} \<subseteq> set (allWords (solveGrid lexCompare (puzzleGrid ''2024-01-15-v1'')
               (words (buildDictionary dayText)) (prefixes (buildDictionary dayText))))"
proof -
  have 1: "foundWords readyState = {}" by (simp add: readyState_def initialState_def)
  have 2: "''2024-01-15-v1'' \<noteq> []" by simp
  from foundWords_within_solution [OF 1 2, THEN conjunct1,
      of lexCompare "words (buildDictionary dayText)" "prefixes (buildDictionary dayText)"
        "[Start, TileClick 0, TileClick 5, TileClick 1, Submit]"]
  have "{''bed''} \<subseteq> set (allWords (solveGrid lexCompare (puzzleGrid ''2024-01-15-v1'')
               (words (buildDictionary dayText)) (prefixes (buildDictionary dayText))))"
    unfolding day_run .
  with 1 2 day_run show ?thesis by (intro conjI)
qed

end
